theory Spec2Isabelle
  imports Main "HOL-Library.List_Lexorder" "HOL-Library.Char_ord" "HOL-Library.Multiset"
begin

section \<open>Python strings\<close>

text \<open>
  A Python \<open>str\<close> is modelled as a \<^typ>\<open>string\<close>. The text handled by the script (directory
  and file names, article text, the HTML template) is taken to be ASCII, so that one
  \<^typ>\<open>char\<close> is one code point and \<open>len\<close> is \<^const>\<open>length\<close>. Strings are compared
  lexicographically by character code, as Python compares them.
\<close>

definition nl :: char where
  "nl = CHR 0x0A"

definition upper_char :: "char \<Rightarrow> char" where
  "upper_char c =
     (case map_of (zip ''abcdefghijklmnopqrstuvwxyz'' ''ABCDEFGHIJKLMNOPQRSTUVWXYZ'') c of
        None \<Rightarrow> c
      | Some u \<Rightarrow> u)"

definition upper :: "string \<Rightarrow> string" where
  \<comment> \<open>\<open>str.upper\<close> on ASCII text\<close>
  "upper s = map upper_char s"

definition startswith :: "string \<Rightarrow> string \<Rightarrow> bool" where
  "startswith s p = (take (length p) s = p)"

definition endswith :: "string \<Rightarrow> string \<Rightarrow> bool" where
  "endswith s p = (length p \<le> length s \<and> drop (length s - length p) s = p)"

fun str_replace :: "string \<Rightarrow> string \<Rightarrow> string \<Rightarrow> string" where
  \<comment> \<open>\<open>s.replace(old, new)\<close>: every non-overlapping occurrence, left to right\<close>
  "str_replace old new [] = (if old = [] then new else [])"
| "str_replace old new (c # cs) =
     (if old = [] then new @ c # str_replace old new cs
      else if startswith (c # cs) old then new @ str_replace old new (drop (length old - 1) cs)
      else c # str_replace old new cs)"

fun split_on :: "char \<Rightarrow> string \<Rightarrow> string list" where
  \<comment> \<open>\<open>s.split(sep)\<close> for a one-character separator\<close>
  "split_on sep [] = [[]]"
| "split_on sep (c # cs) =
     (if c = sep then [] # split_on sep cs
      else (case split_on sep cs of [] \<Rightarrow> [[c]] | w # ws \<Rightarrow> (c # w) # ws))"

fun str_join :: "string \<Rightarrow> string list \<Rightarrow> string" where
  \<comment> \<open>\<open>sep.join(xs)\<close>\<close>
  "str_join sep [] = []"
| "str_join sep [x] = x"
| "str_join sep (x # y # ys) = x @ sep @ str_join sep (y # ys)"

definition path_join :: "string \<Rightarrow> string \<Rightarrow> string" where
  \<comment> \<open>\<open>os.path.join(a, b)\<close> on POSIX\<close>
  "path_join a b =
     (if startswith b ''/'' then b
      else if a = [] \<or> endswith a ''/'' then a @ b
      else a @ ''/'' @ b)"

definition relpath :: "string \<Rightarrow> string" where
  \<comment> \<open>\<open>os.path.relpath(root, '.')\<close> for the roots \<open>os.walk('.')\<close> yields:
      \<open>'.'\<close> itself, or \<open>'./'\<close> followed by the directory names joined with \<open>'/'\<close>\<close>
  "relpath root = (if startswith root ''./'' then drop 2 root else root)"

section \<open>Regular expressions of the script\<close>

text \<open>
  The patterns of the script are flat sequences: single characters and character
  classes, each taken once or under a greedy (\<open>*\<close>) or lazy (\<open>*?\<close>) star, group
  boundaries, and the end-of-line assertion \<open>$\<close> under \<open>re.MULTILINE\<close>. \<open>x+\<close> is
  \<open>x\<close> followed by \<open>x*\<close>. The matcher backtracks in the order of Python's \<open>re\<close>
  and returns the first way to match: the matched text cut at the group boundaries,
  and the text that follows the match.
\<close>

datatype cls = Lit char | AnyChar | NotNewline | Space | Digit

definition is_space :: "char \<Rightarrow> bool" where
  \<comment> \<open>\<open>\s\<close> of a \<open>str\<close> pattern, on ASCII\<close>
  "is_space c = (c \<in> set [CHR 0x09, CHR 0x0A, CHR 0x0B, CHR 0x0C, CHR 0x0D,
                            CHR 0x1C, CHR 0x1D, CHR 0x1E, CHR 0x1F, CHR 0x20])"

definition is_digit :: "char \<Rightarrow> bool" where
  \<comment> \<open>\<open>\d\<close> on ASCII\<close>
  "is_digit c = (c \<in> set ''0123456789'')"

fun cls_ok :: "cls \<Rightarrow> char \<Rightarrow> bool" where
  "cls_ok (Lit a) c = (c = a)"
| "cls_ok AnyChar c = True"
| "cls_ok NotNewline c = (c \<noteq> nl)"
| "cls_ok Space c = is_space c"
| "cls_ok Digit c = is_digit c"

datatype item = One cls | StarG cls | StarL cls | Mark | Eol

fun push_char :: "char \<Rightarrow> string list \<times> string \<Rightarrow> string list \<times> string" where
  "push_char x ([], rest) = ([[x]], rest)"
| "push_char x (g # gs, rest) = ((x # g) # gs, rest)"

fun open_seg :: "string list \<times> string \<Rightarrow> string list \<times> string" where
  "open_seg (segs, rest) = ([] # segs, rest)"

fun rmatch :: "item list \<Rightarrow> string \<Rightarrow> (string list \<times> string) option" where
  "rmatch [] s = Some ([[]], s)"
| "rmatch (Mark # r) s = map_option open_seg (rmatch r s)"
| "rmatch (Eol # r) [] = rmatch r []"
| "rmatch (Eol # r) (x # xs) = (if x = nl then rmatch r (x # xs) else None)"
| "rmatch (One c # r) [] = None"
| "rmatch (One c # r) (x # xs) =
     (if cls_ok c x then map_option (push_char x) (rmatch r xs) else None)"
| "rmatch (StarG c # r) [] = rmatch r []"
| "rmatch (StarG c # r) (x # xs) =
     (if cls_ok c x
      then (case rmatch (StarG c # r) xs of
              Some res \<Rightarrow> Some (push_char x res)
            | None \<Rightarrow> rmatch r (x # xs))
      else rmatch r (x # xs))"
| "rmatch (StarL c # r) [] = rmatch r []"
| "rmatch (StarL c # r) (x # xs) =
     (case rmatch r (x # xs) of
        Some res \<Rightarrow> Some res
      | None \<Rightarrow>
          (if cls_ok c x then map_option (push_char x) (rmatch (StarL c # r) xs) else None))"

fun found_at :: "string list \<times> string \<Rightarrow> string \<times> string list \<times> string" where
  "found_at (segs, rest) = ([], segs, rest)"

fun skip_char :: "char \<Rightarrow> string \<times> string list \<times> string \<Rightarrow> string \<times> string list \<times> string" where
  "skip_char c (pre, segs, rest) = (c # pre, segs, rest)"

fun re_search :: "item list \<Rightarrow> string \<Rightarrow> (string \<times> string list \<times> string) option" where
  \<comment> \<open>\<open>re.search\<close>: the leftmost match, as (text before it, segments, text after it)\<close>
  "re_search p [] = map_option found_at (rmatch p [])"
| "re_search p (c # cs) =
     (case rmatch p (c # cs) of
        Some m \<Rightarrow> Some (found_at m)
      | None \<Rightarrow> map_option (skip_char c) (re_search p cs))"

fun re_search_bol :: "item list \<Rightarrow> bool \<Rightarrow> string \<Rightarrow> (string \<times> string list \<times> string) option" where
  \<comment> \<open>\<open>re.search\<close> of \<open>^p\<close> under \<open>re.MULTILINE\<close>: a match starts at the beginning of
      the text or right after a newline; the flag says whether the position is one\<close>
  "re_search_bol p bol [] = (if bol then map_option found_at (rmatch p []) else None)"
| "re_search_bol p bol (c # cs) =
     (case (if bol then rmatch p (c # cs) else None) of
        Some m \<Rightarrow> Some (found_at m)
      | None \<Rightarrow> map_option (skip_char c) (re_search_bol p (c = nl) cs))"

definition seg :: "nat \<Rightarrow> string list \<Rightarrow> string" where
  "seg i segs = (if i < length segs then segs ! i else [])"

definition lits :: "string \<Rightarrow> item list" where
  "lits s = map (\<lambda>c. One (Lit c)) s"

section \<open>Path classifier\<close>

definition get_language_info_from_path :: "string list \<Rightarrow> string option \<times> string option" where
  "get_language_info_from_path path_parts =
     (if length path_parts \<ge> 2 then
        (if path_parts ! 0 = ''news'' \<and> length path_parts \<ge> 3
         then (Some (upper (path_parts ! 1)), Some (upper (path_parts ! 2)))
         else if length path_parts \<ge> 2
         then (Some (upper (path_parts ! 0)), Some (upper (path_parts ! 1)))
         else (None, None))
      else (None, None))"

section \<open>Dates\<close>

definition digit_val :: "char \<Rightarrow> nat" where
  "digit_val c = (case map_of (zip ''0123456789'' [0 ..< 10]) c of None \<Rightarrow> 0 | Some d \<Rightarrow> d)"

definition nat_of_digits :: "string \<Rightarrow> nat" where
  "nat_of_digits s = foldl (\<lambda>a c. 10 * a + digit_val c) 0 s"

definition is_leap :: "nat \<Rightarrow> bool" where
  "is_leap y = (y mod 4 = 0 \<and> (y mod 100 \<noteq> 0 \<or> y mod 400 = 0))"

definition days_in_month :: "nat \<Rightarrow> nat \<Rightarrow> nat" where
  "days_in_month y m =
     (if m = 2 then (if is_leap y then 29 else 28)
      else if m \<in> set [4, 6, 9, 11] then 30
      else 31)"

definition strptime_Ymd :: "string \<Rightarrow> (nat \<times> nat \<times> nat) option" where
  \<comment> \<open>\<open>datetime.strptime(s, '%Y%m%d')\<close> on a run of eight digits; \<open>None\<close> is \<open>ValueError\<close>.
      With eight digits the year takes four, and month and day take two each.\<close>
  "strptime_Ymd s =
     (let y = nat_of_digits (take 4 s);
          m = nat_of_digits (take 2 (drop 4 s));
          d = nat_of_digits (drop 6 s)
      in if length s = 8 \<and> list_all is_digit s \<and> 1 \<le> y \<and> 1 \<le> m \<and> m \<le> 12
            \<and> 1 \<le> d \<and> d \<le> days_in_month y m
         then Some (y, m, d) else None)"

definition digit_char :: "nat \<Rightarrow> char" where
  "digit_char n = ''0123456789'' ! (n mod 10)"

fun decimal :: "nat \<Rightarrow> nat \<Rightarrow> string" where
  \<comment> \<open>the last \<open>k\<close> decimal digits of \<open>n\<close>\<close>
  "decimal 0 n = []"
| "decimal (Suc k) n = decimal k (n div 10) @ [digit_char n]"

definition year_digits :: "nat \<Rightarrow> string" where
  \<comment> \<open>\<open>%Y\<close> as the C library renders it: no leading zeros (years 1 to 9999)\<close>
  "year_digits y =
     (if y < 10 then decimal 1 y else if y < 100 then decimal 2 y
      else if y < 1000 then decimal 3 y else decimal 4 y)"

fun strftime_Ymd :: "nat \<times> nat \<times> nat \<Rightarrow> string" where
  \<comment> \<open>\<open>d.strftime('%Y-%m-%d')\<close>\<close>
  "strftime_Ymd (y, m, d) = year_digits y @ ''-'' @ decimal 2 m @ ''-'' @ decimal 2 d"

definition fromtimestamp :: "int \<Rightarrow> (nat \<times> nat \<times> nat) option" where
  \<comment> \<open>the calendar date of \<open>datetime.fromtimestamp(t)\<close> for whole seconds \<open>t\<close> since the
      epoch, with UTC as the local time zone; \<open>None\<close> is the error raised outside the
      years 1 to 9999\<close>
  "fromtimestamp t =
     (let z = t div 86400 + 719468;
          era = z div 146097;
          doe = z mod 146097;
          yoe = (doe - doe div 1460 + doe div 36524 - doe div 146096) div 365;
          doy = doe - (365 * yoe + yoe div 4 - yoe div 100);
          mp = (5 * doy + 2) div 153;
          d = doy - (153 * mp + 2) div 5 + 1;
          m = (if mp < 10 then mp + 3 else mp - 9);
          y = yoe + era * 400 + (if m \<le> 2 then 1 else 0)
      in if 1 \<le> y \<and> y \<le> 9999 then Some (nat y, nat m, nat d) else None)"

section \<open>Substitution into the template\<close>

text \<open>
  \<open>re.sub(pattern, repl, text)\<close> first parses the replacement string \<open>repl\<close>: a
  backslash starts a group reference or an escape, and a malformed one raises before
  any search is made. Then every non-overlapping match, left to right, is replaced by
  the expanded replacement.
\<close>

datatype error = BadTemplate | TemplateUnreadable | OutputUnwritable

datatype tpl = TChar char | TGroup nat

definition is_octal :: "char \<Rightarrow> bool" where
  "is_octal c = (c \<in> set ''01234567'')"

definition is_ascii_letter :: "char \<Rightarrow> bool" where
  "is_ascii_letter c =
     (c \<in> set ''abcdefghijklmnopqrstuvwxyzABCDEFGHIJKLMNOPQRSTUVWXYZ'')"

definition octal_val :: "string \<Rightarrow> nat" where
  "octal_val s = foldl (\<lambda>a c. 8 * a + digit_val c) 0 s"

definition escapes :: "char \<Rightarrow> char option" where
  \<comment> \<open>the table \<open>ESCAPES\<close> of \<open>re._parser\<close>\<close>
  "escapes c = map_of [(CHR ''a'', CHR 0x07), (CHR ''b'', CHR 0x08), (CHR ''f'', CHR 0x0C),
                       (CHR ''n'', CHR 0x0A), (CHR ''r'', CHR 0x0D), (CHR ''t'', CHR 0x09),
                       (CHR ''v'', CHR 0x0B), (CHR 0x5C, CHR 0x5C)] c"

definition group_ref :: "nat \<Rightarrow> nat \<Rightarrow> nat \<Rightarrow> error + tpl list \<times> nat" where
  "group_ref groups i used = (if i \<le> groups then Inr ([TGroup i], used) else Inl BadTemplate)"

fun parse_escape :: "nat \<Rightarrow> string \<Rightarrow> error + tpl list \<times> nat" where
  \<comment> \<open>one escape of a replacement string, read after its backslash: the template items
      and the number of characters read, or the error raised (\<open>parse_template\<close> of
      \<open>re._parser\<close>, for a pattern with \<open>groups\<close> unnamed groups)\<close>
  "parse_escape groups [] = Inl BadTemplate"
| "parse_escape groups (c # r) =
     (if c = CHR ''g'' then
        (case r of
           [] \<Rightarrow> Inl BadTemplate
         | b # r' \<Rightarrow>
             (let name = takeWhile (\<lambda>x. x \<noteq> CHR ''>'') r' in
              if b \<noteq> CHR ''<'' \<or> CHR ''>'' \<notin> set r' \<or> name = [] \<or> \<not> list_all is_digit name
              then Inl BadTemplate
              else group_ref groups (nat_of_digits name) (length name + 3)))
      else if c = CHR ''0'' then
        (case r of
           [] \<Rightarrow> Inr ([TChar (CHR 0x00)], 1)
         | o1 # r' \<Rightarrow>
             if \<not> is_octal o1 then Inr ([TChar (CHR 0x00)], 1)
             else (case r' of
                     [] \<Rightarrow> Inr ([TChar (char_of (octal_val [o1]))], 2)
                   | o2 # r'' \<Rightarrow>
                       if is_octal o2 then Inr ([TChar (char_of (octal_val [o1, o2]))], 3)
                       else Inr ([TChar (char_of (octal_val [o1]))], 2)))
      else if is_digit c then
        (case r of
           [] \<Rightarrow> group_ref groups (nat_of_digits [c]) 1
         | d # r' \<Rightarrow>
             if \<not> is_digit d then group_ref groups (nat_of_digits [c]) 1
             else if is_octal c \<and> is_octal d \<and> r' \<noteq> [] \<and> is_octal (hd r')
             then (if octal_val [c, d, hd r'] > 255 then Inl BadTemplate
                   else Inr ([TChar (char_of (octal_val [c, d, hd r']))], 3))
             else group_ref groups (nat_of_digits [c, d]) 2)
      else
        (case escapes c of
           Some e \<Rightarrow> Inr ([TChar e], 1)
         | None \<Rightarrow>
             if is_ascii_letter c then Inl BadTemplate
             else Inr ([TChar (CHR 0x5C), TChar c], 1)))"

fun parse_template :: "nat \<Rightarrow> string \<Rightarrow> error + tpl list" where
  "parse_template groups [] = Inr []"
| "parse_template groups (c # cs) =
     (if c = CHR 0x5C then
        (case parse_escape groups cs of
           Inl e \<Rightarrow> Inl e
         | Inr (items, used) \<Rightarrow>
             (case parse_template groups (drop used cs) of
                Inl e \<Rightarrow> Inl e
              | Inr rest \<Rightarrow> Inr (items @ rest)))
      else
        (case parse_template groups cs of
           Inl e \<Rightarrow> Inl e
         | Inr rest \<Rightarrow> Inr (TChar c # rest)))"

definition group_text :: "string list \<Rightarrow> nat \<Rightarrow> string" where
  \<comment> \<open>the groups of a pattern \<open>(g1)middle(g2)\<close>: group 0 is the whole match\<close>
  "group_text segs i =
     (if i = 0 then concat segs else if i = 1 then seg 0 segs else if i = 2 then seg 2 segs else [])"

fun expand_item :: "string list \<Rightarrow> tpl \<Rightarrow> string" where
  "expand_item segs (TChar c) = [c]"
| "expand_item segs (TGroup i) = group_text segs i"

definition expand_template :: "tpl list \<Rightarrow> string list \<Rightarrow> string" where
  "expand_template t segs = concat (map (expand_item segs) t)"

fun re_sub_loop :: "item list \<Rightarrow> (string list \<Rightarrow> string) \<Rightarrow> string \<Rightarrow> string" where
  \<comment> \<open>the replacement of every match. A match that consumes nothing is followed by a
      step of one character; the two patterns below always consume their tags.\<close>
  "re_sub_loop p f [] = (case rmatch p [] of Some (segs, rest) \<Rightarrow> f segs | None \<Rightarrow> [])"
| "re_sub_loop p f (c # cs) =
     (case rmatch p (c # cs) of
        Some (segs, rest) \<Rightarrow>
          (if length rest < length (c # cs) then f segs @ re_sub_loop p f rest
           else f segs @ c # re_sub_loop p f cs)
      | None \<Rightarrow> c # re_sub_loop p f cs)"

definition re_sub :: "item list \<Rightarrow> string \<Rightarrow> string \<Rightarrow> error + string" where
  \<comment> \<open>\<open>re.sub\<close> for a pattern with two groups\<close>
  "re_sub p repl s =
     (case parse_template 2 repl of
        Inl e \<Rightarrow> Inl e
      | Inr t \<Rightarrow> Inr (re_sub_loop p (expand_template t) s))"

section \<open>Data model\<close>

text \<open>
  The directory tree under the working directory: the files of a directory (name, text,
  modification time; no text when the file cannot be opened or decoded) and its
  subdirectories by name, both in the order the operating system lists them.
\<close>

record pyfile =
  fname :: string
  fcontent :: "string option"
  mtime :: int

datatype dir = Dir "pyfile list" "(string \<times> dir) list"

record article =
  filename :: string
  title :: string
  date :: string
  summary :: string
  filepath :: string

record folder =
  language_code :: string
  media_name :: "string option"
  folder_path :: string
  articles :: "article list"

text \<open>The \<open>structure\<close> dictionary, in insertion order.\<close>

type_synonym project_structure = "(string \<times> folder) list"

datatype msg =
    ErrorProcessing string
  | NoArticlesFound
  | SuccessfullyUpdated nat nat
  | ErrorUpdating error

fun dict_set :: "'k \<Rightarrow> 'v \<Rightarrow> ('k \<times> 'v) list \<Rightarrow> ('k \<times> 'v) list" where
  \<comment> \<open>\<open>d[k] = v\<close>: a new key goes last, a known key keeps its place\<close>
  "dict_set k v [] = [(k, v)]"
| "dict_set k v ((k', v') # d) = (if k' = k then (k, v) # d else (k', v') # dict_set k v d)"

section \<open>Article extraction\<close>

definition title_re :: "item list" where
  \<comment> \<open>\<open>^#\s+(.+)$\<close> after its \<open>^\<close>, under \<open>re.MULTILINE\<close>\<close>
  "title_re = [One (Lit (CHR ''#'')), One Space, StarG Space, Mark,
               One NotNewline, StarG NotNewline, Eol]"

definition date_re :: "item list" where
  \<comment> \<open>\<open>(\d{8})\<close>\<close>
  "date_re = replicate 8 (One Digit)"

definition summary_re :: "item list" where
  \<comment> \<open>\<open>\n\n([^\n]+)\<close>\<close>
  "summary_re = [One (Lit nl), One (Lit nl), Mark, One NotNewline, StarG NotNewline]"

definition extract_title :: "string \<Rightarrow> string \<Rightarrow> string" where
  "extract_title text md_file =
     (case re_search_bol title_re True text of
        Some (pre, segs, rest) \<Rightarrow> seg 1 segs
      | None \<Rightarrow> str_replace ''.md'' [] md_file)"

definition extract_date :: "string \<Rightarrow> int \<Rightarrow> string option" where
  \<comment> \<open>\<open>None\<close>: \<open>datetime.fromtimestamp\<close> raises\<close>
  "extract_date md_file mt =
     (case re_search date_re md_file of
        Some (pre, segs, rest) \<Rightarrow>
          (let date_str = seg 0 segs in
           case strptime_Ymd date_str of
             Some date_obj \<Rightarrow> Some (strftime_Ymd date_obj)
           | None \<Rightarrow> Some date_str)
      | None \<Rightarrow> map_option strftime_Ymd (fromtimestamp mt))"

definition summary_match :: "string \<Rightarrow> string" where
  "summary_match text =
     (case re_search summary_re text of
        Some (pre, segs, rest) \<Rightarrow> seg 1 segs
      | None \<Rightarrow> [])"

definition shorten :: "string \<Rightarrow> string" where
  "shorten s = (if length s > 150 then take 150 s @ ''...'' else s)"

definition parse_article :: "string \<Rightarrow> pyfile \<Rightarrow> article option" where
  \<comment> \<open>the body of the \<open>try\<close> for one file; \<open>None\<close> when it raises\<close>
  "parse_article root f =
     (case fcontent f of
        None \<Rightarrow> None
      | Some text \<Rightarrow>
          (case extract_date (fname f) (mtime f) of
             None \<Rightarrow> None
           | Some date_formatted \<Rightarrow>
               Some \<lparr>filename = fname f,
                     title = extract_title text (fname f),
                     date = date_formatted,
                     summary = shorten (summary_match text),
                     filepath = path_join root (fname f)\<rparr>))"

definition add_article :: "string \<Rightarrow> article \<Rightarrow> project_structure \<Rightarrow> project_structure" where
  \<comment> \<open>\<open>structure[folder_key]['articles'].append(a)\<close>\<close>
  "add_article folder_key a st =
     (case map_of st folder_key of
        None \<Rightarrow> st
      | Some g \<Rightarrow> dict_set folder_key (g\<lparr>articles := articles g @ [a]\<rparr>) st)"

definition process_file ::
  "string \<Rightarrow> string \<Rightarrow> project_structure \<times> msg list \<Rightarrow> pyfile \<Rightarrow> project_structure \<times> msg list" where
  "process_file root folder_key acc f =
     (case parse_article root f of
        None \<Rightarrow> (fst acc, snd acc @ [ErrorProcessing (path_join root (fname f))])
      | Some a \<Rightarrow> (add_article folder_key a (fst acc), snd acc))"

definition is_md_file :: "pyfile \<Rightarrow> bool" where
  "is_md_file f = (endswith (fname f) ''.md'' \<and> fname f \<noteq> ''README.md'')"

definition folder_key_of :: "string \<Rightarrow> string option \<Rightarrow> string" where
  "folder_key_of lang_code media =
     (case media of
        None \<Rightarrow> lang_code
      | Some m \<Rightarrow> if m \<noteq> [] then lang_code @ ''_'' @ m else lang_code)"

definition visit :: "project_structure \<times> msg list \<Rightarrow> string \<times> pyfile list \<Rightarrow> project_structure \<times> msg list" where
  \<comment> \<open>the body of the loop over \<open>os.walk('.')\<close>, for one directory\<close>
  "visit acc entry =
     (let root = fst entry; files = snd entry in
      if root = ''.'' then acc
      else
        (let rel_path = relpath root;
             path_parts = split_on (CHR ''/'') rel_path;
             info = get_language_info_from_path path_parts;
             md_files = filter is_md_file files
         in case fst info of
              None \<Rightarrow> acc
            | Some lang_code \<Rightarrow>
                if md_files = [] \<or> lang_code = [] then acc
                else
                  (let folder_key = folder_key_of lang_code (snd info);
                       st = (if folder_key \<in> set (map fst (fst acc)) then fst acc
                             else fst acc @
                               [(folder_key,
                                 \<lparr>language_code = lang_code, media_name = snd info,
                                  folder_path = rel_path, articles = []\<rparr>)])
                   in foldl (process_file root folder_key) (st, snd acc) md_files)))"

fun os_walk :: "string \<Rightarrow> dir \<Rightarrow> (string \<times> pyfile list) list"
  and os_walk_dirs :: "string \<Rightarrow> (string \<times> dir) list \<Rightarrow> (string \<times> pyfile list) list" where
  \<comment> \<open>\<open>os.walk\<close>, top down, with the edit the loop makes to \<open>dirs\<close> before the walk
      descends: names that start with a dot are dropped\<close>
  "os_walk walk_top (Dir files subdirs) = (walk_top, files) # os_walk_dirs walk_top subdirs"
| "os_walk_dirs walk_top [] = []"
| "os_walk_dirs walk_top ((d, sub) # rest) =
     (if startswith d ''.'' then [] else os_walk (path_join walk_top d) sub) @ os_walk_dirs walk_top rest"

definition get_project_structure :: "dir \<Rightarrow> project_structure \<times> msg list" where
  "get_project_structure t = foldl visit ([], []) (os_walk ''.'' t)"

section \<open>Rendering\<close>

definition get_existing_languages :: "project_structure \<Rightarrow> string list" where
  "get_existing_languages st = sort (remdups (map (\<lambda>kv. language_code (snd kv)) st))"

definition generate_language_showcase_html :: "string list \<Rightarrow> string" where
  \<open>generate_language_showcase_html languages =
     (if languages = [] then []
      else
        (let language_html = map (\<lambda>lang. ''<span class="language">'' @ lang @ ''</span>'') languages;
             languages_joined = str_join ''\<newline>                '' language_html
         in ''\<newline>            <div class="language-showcase">\<newline>                ''
            @ languages_joined @ ''\<newline>            </div>''))\<close>

definition relative_path :: "article \<Rightarrow> string" where
  "relative_path a = str_replace ''.md'' [] (filepath a)"

definition item_html :: "string \<Rightarrow> article \<Rightarrow> string" where
  \<open>item_html language_tag a =
     ''\<newline>            <li class="news-item">\<newline>                <div class="news-header">\<newline>                    <span class="news-date">''
     @ date a @ ''</span>\<newline>                    <span class="language-tag">''
     @ language_tag @ ''</span>\<newline>                    <a href="''
     @ relative_path a @ ''" class="news-title">''
     @ title a @ ''</a>\<newline>                </div>\<newline>            </li>''\<close>

definition sort_newest_first :: "article list \<Rightarrow> article list" where
  \<comment> \<open>\<open>articles.sort(key=lambda x: x['date'], reverse=True)\<close>: stable\<close>
  "sort_newest_first arts = rev (sort_key date (rev arts))"

definition language_tag_of :: "folder \<Rightarrow> string" where
  "language_tag_of folder_data =
     language_code folder_data @
       (case media_name folder_data of
          None \<Rightarrow> []
        | Some m \<Rightarrow> if m \<noteq> [] then '' - '' @ m else [])"

definition render_folder :: "string list \<times> project_structure \<Rightarrow> string \<Rightarrow> string list \<times> project_structure" where
  \<comment> \<open>one round of the loop over the sorted keys: the items rendered so far and the
      structure, whose article list the sort reorders in place\<close>
  "render_folder acc folder_key =
     (case map_of (snd acc) folder_key of
        None \<Rightarrow> acc
      | Some folder_data \<Rightarrow>
          (let arts = sort_newest_first (articles folder_data)
           in (fst acc @ map (item_html (language_tag_of folder_data)) arts,
               dict_set folder_key (folder_data\<lparr>articles := arts\<rparr>) (snd acc))))"

definition generate_news_list_html :: "project_structure \<Rightarrow> string \<times> project_structure" where
  \<comment> \<open>the HTML returned, and the structure as the call leaves it\<close>
  "generate_news_list_html st =
     (let r = foldl render_folder ([], st) (sort (map fst st))
      in (str_join [nl] (fst r), snd r))"

section \<open>Updating the page\<close>

definition showcase_re :: "item list" where
  \<comment> \<open>\<open>(<div class="language-showcase"\s*\>\s*).*?(\s*</div\s*\>)\<close> under \<open>re.DOTALL\<close>\<close>
  \<open>showcase_re =
     lits ''<div class="language-showcase"'' @
     [StarG Space, One (Lit (CHR ''>'')), StarG Space, Mark, StarL AnyChar, Mark, StarG Space] @
     lits ''</div'' @ [StarG Space, One (Lit (CHR ''>''))]\<close>

definition news_list_re :: "item list" where
  \<comment> \<open>\<open>(<ul class="news-list"\s*\>\s*).*?(\s*</ul\s*\>)\<close> under \<open>re.DOTALL\<close>\<close>
  \<open>news_list_re =
     lits ''<ul class="news-list"'' @
     [StarG Space, One (Lit (CHR ''>'')), StarG Space, Mark, StarL AnyChar, Mark, StarG Space] @
     lits ''</ul'' @ [StarG Space, One (Lit (CHR ''>''))]\<close>

definition sub_language_showcase :: "string \<Rightarrow> string \<Rightarrow> error + string" where
  "sub_language_showcase language_showcase_html template_content =
     re_sub showcase_re
       (if language_showcase_html \<noteq> [] then [CHR 0x5C, CHR ''1''] @ language_showcase_html @ [CHR 0x5C, CHR ''2'']
        else [])
       template_content"

definition sub_news_list :: "string \<Rightarrow> string \<Rightarrow> error + string" where
  "sub_news_list news_list_html updated_content =
     re_sub news_list_re ([CHR 0x5C, CHR ''1''] @ news_list_html @ [CHR 0x5C, CHR ''2''])
       updated_content"

record env =
  tree :: dir
  template :: "string option"
  output_writable :: bool

record outcome =
  returned :: bool
  written :: "string option"
  printed :: "msg list"

definition failure :: "msg list \<Rightarrow> error \<Rightarrow> outcome" where
  \<comment> \<open>the \<open>except\<close> branch\<close>
  "failure log e = \<lparr>returned = False, written = None, printed = log @ [ErrorUpdating e]\<rparr>"

definition update_index_html :: "env \<Rightarrow> outcome" where
  "update_index_html e =
     (let r = get_project_structure (tree e); log = snd r in
      if fst r = [] then \<lparr>returned = False, written = None, printed = log @ [NoArticlesFound]\<rparr>
      else
        (let n = generate_news_list_html (fst r);
             news_list_html = fst n;
             st = snd n;
             existing_languages = get_existing_languages st;
             language_showcase_html = generate_language_showcase_html existing_languages
         in case template e of
              None \<Rightarrow> failure log TemplateUnreadable
            | Some template_content \<Rightarrow>
                (case sub_language_showcase language_showcase_html template_content of
                   Inl err \<Rightarrow> failure log err
                 | Inr updated_content \<Rightarrow>
                     (case sub_news_list news_list_html updated_content of
                        Inl err \<Rightarrow> failure log err
                      | Inr final_content \<Rightarrow>
                          if output_writable e
                          then \<lparr>returned = True, written = Some final_content,
                                printed = log @ [SuccessfullyUpdated (length st)
                                  (sum_list (map (\<lambda>kv. length (articles (snd kv))) st))]\<rparr>
                          else failure log OutputUnwritable))))"

section \<open>Reference predicates and example inputs\<close>

definition long_text :: string where
  "long_text = ''# Big Story'' @ [nl, nl] @ replicate 151 (CHR ''a'') @ [nl]"

definition long_file :: pyfile where
  "long_file = \<lparr>fname = ''20240301_story.md'', fcontent = Some long_text, mtime = 0\<rparr>"

definition long_article :: article where
  "long_article =
     \<lparr>filename = ''20240301_story.md'', title = ''Big Story'', date = ''2024-03-01'',
      summary = replicate 150 (CHR ''a'') @ ''...'',
      filepath = ''./news/en/bbc/20240301_story.md''\<rparr>"

definition flat_tree :: dir where
  "flat_tree =
     Dir [\<lparr>fname = ''README.md'', fcontent = Some ''# Everyday news'', mtime = 0\<rparr>]
         [(''notes'', Dir [\<lparr>fname = ''todo.md'', fcontent = Some ''# To do'', mtime = 0\<rparr>] [])]"

definition flat_env :: env where
  "flat_env = \<lparr>tree = flat_tree, template = Some ''<ul class=news-list></ul>'',
               output_writable = True\<rparr>"

definition hidden_file_tree :: dir where
  "hidden_file_tree =
     Dir [] [(''news'', Dir [] [(''en'', Dir []
       [(''bbc'', Dir [\<lparr>fname = ''.draft.md'', fcontent = Some ''# Draft'', mtime = 0\<rparr>] [])])])]"

definition hidden_dir_tree :: dir where
  "hidden_dir_tree =
     Dir [] [(''news'', Dir [] [(''en'', Dir []
       [(''.bbc'', Dir [\<lparr>fname = ''draft.md'', fcontent = Some ''# Draft'', mtime = 0\<rparr>] [])])])]"

definition double_ext_file :: pyfile where
  "double_ext_file = \<lparr>fname = ''report.md.md'', fcontent = Some ''no heading here'', mtime = 0\<rparr>"

definition double_ext_article :: article where
  "double_ext_article =
     \<lparr>filename = ''report.md.md'', title = ''report'', date = ''1970-01-01'', summary = [],
      filepath = ''./news/en/bbc/report.md.md''\<rparr>"

definition strip_md :: "string \<Rightarrow> string" where
  \<comment> \<open>the claim's reading: the trailing extension stripped and nothing else altered\<close>
  "strip_md s = (if endswith s ''.md'' then take (length s - 3) s else s)"

definition story_file :: pyfile where
  "story_file = \<lparr>fname = ''20240301_story.md'',
                  fcontent = Some (''# Big Story'' @ [nl, nl] @ ''This is the opening line.'' @ [nl]),
                  mtime = 0\<rparr>"

definition story_tree :: dir where
  "story_tree = Dir [] [(''news'', Dir [] [(''en'', Dir [] [(''bbc'', Dir [story_file] [])])])]"

definition story_structure :: project_structure where
  "story_structure =
     [(''EN_BBC'',
       \<lparr>language_code = ''EN'', media_name = Some ''BBC'', folder_path = ''news/en/bbc'',
        articles = [\<lparr>filename = ''20240301_story.md'', title = ''Big Story'',
                     date = ''2024-03-01'', summary = ''This is the opening line.'',
                     filepath = ''./news/en/bbc/20240301_story.md''\<rparr>]\<rparr>)]"

definition bare_page :: string where
  "bare_page = ''<html><body></body></html>''"

definition bare_env :: env where
  "bare_env = \<lparr>tree = story_tree, template = Some bare_page, output_writable = True\<rparr>"


definition two_stories :: project_structure where
  "two_stories =
     [(''EN_BBC'',
       \<lparr>language_code = ''EN'', media_name = Some ''BBC'', folder_path = ''news/en/bbc'',
        articles = [\<lparr>filename = ''20240301_a.md'', title = ''A'', date = ''2024-03-01'',
                     summary = [], filepath = ''./news/en/bbc/20240301_a.md''\<rparr>,
                    \<lparr>filename = ''20240302_b.md'', title = ''B'', date = ''2024-03-02'',
                     summary = [], filepath = ''./news/en/bbc/20240302_b.md''\<rparr>]\<rparr>)]"

definition digits_at :: "string \<Rightarrow> nat \<Rightarrow> bool" where
  \<comment> \<open>eight digits in a row start at position \<open>i\<close> of \<open>s\<close>\<close>
  "digits_at s i = (i + 8 \<le> length s \<and> list_all is_digit (take 8 (drop i s)))"

definition two_dates_file :: pyfile where
  "two_dates_file = \<lparr>fname = ''19990101_20240115.md'', fcontent = Some ''# Two dates'', mtime = 0\<rparr>"

definition late_nines_file :: pyfile where
  "late_nines_file = \<lparr>fname = ''20240115_99999999.md'', fcontent = Some ''# Nines'', mtime = 0\<rparr>"

definition dated_file :: pyfile where
  "dated_file = \<lparr>fname = ''bbc_20240115_story.md'', fcontent = Some ''# Dated'', mtime = 0\<rparr>"

definition nines_file :: pyfile where
  "nines_file = \<lparr>fname = ''bbc_99999999.md'', fcontent = Some ''# Nines'', mtime = 0\<rparr>"

definition undated_file :: pyfile where
  "undated_file = \<lparr>fname = ''story.md'', fcontent = Some ''# Undated'', mtime = 1709251200\<rparr>"

fun wf_dir :: "dir \<Rightarrow> bool" and wf_dirs :: "(string \<times> dir) list \<Rightarrow> bool" where
  \<comment> \<open>directory names as a file system has them: not empty, without a slash\<close>
  "wf_dir (Dir files subdirs) = wf_dirs subdirs"
| "wf_dirs [] = True"
| "wf_dirs ((d, sub) # rest) = (d \<noteq> [] \<and> CHR ''/'' \<notin> set d \<and> wf_dir sub \<and> wf_dirs rest)"

definition group_ok :: "string \<times> folder \<Rightarrow> bool" where
  \<comment> \<open>the media name is present and the key is \<open>{LANG}_{MEDIA}\<close>\<close>
  "group_ok kv =
     (case media_name (snd kv) of
        None \<Rightarrow> False
      | Some m \<Rightarrow> fst kv = language_code (snd kv) @ ''_'' @ m)"

definition root_ok :: "string \<Rightarrow> bool" where
  \<comment> \<open>a root of the walk: \<open>.\<close> followed by directory names that are not empty\<close>
  "root_ok walk_top =
     (case split_on (CHR ''/'') walk_top of
        [] \<Rightarrow> False
      | w # ws \<Rightarrow> w = ''.'' \<and> [] \<notin> set ws)"

definition newest_first_stably :: "article list \<Rightarrow> article list \<Rightarrow> bool" where
  \<comment> \<open>the claim's words: \<open>ys\<close> holds the articles of \<open>xs\<close>, sorted by date with the newest
      first, and the articles of one date stand in the order they had in \<open>xs\<close>\<close>
  "newest_first_stably xs ys =
     (mset ys = mset xs
      \<and> sorted (rev (map date ys))
      \<and> (\<forall>d. filter (\<lambda>a. date a = d) ys = filter (\<lambda>a. date a = d) xs))"

definition reordered_group :: "string \<times> folder \<Rightarrow> string \<times> folder \<Rightarrow> bool" where
  \<comment> \<open>the same key, language code, media name and folder path; the articles sorted\<close>
  "reordered_group kv kv' =
     (fst kv' = fst kv
      \<and> language_code (snd kv') = language_code (snd kv)
      \<and> media_name (snd kv') = media_name (snd kv)
      \<and> folder_path (snd kv') = folder_path (snd kv)
      \<and> newest_first_stably (articles (snd kv)) (articles (snd kv')))"



section \<open>The path classifier\<close>

text \<open>
  C3. With at least three segments of which the first is \<open>news\<close>, the classifier returns
  segments 1 and 2 in upper case; otherwise, with at least two segments, segments 0 and 1
  in upper case; otherwise nothing for both. The result is a function of the segment
  list alone.
\<close>

theorem classifier_rule:
  "get_language_info_from_path path_parts =
     (if length path_parts \<ge> 3 \<and> path_parts ! 0 = ''news''
      then (Some (upper (path_parts ! 1)), Some (upper (path_parts ! 2)))
      else if length path_parts \<ge> 2
      then (Some (upper (path_parts ! 0)), Some (upper (path_parts ! 1)))
      else (None, None))"
  by (simp add: get_language_info_from_path_def)

theorem classifier_rule_witness:
  "get_language_info_from_path [''news'', ''en'', ''bbc'', ''2024''] = (Some ''EN'', Some ''BBC'')
   \<and> get_language_info_from_path [''fr'', ''le-monde''] = (Some ''FR'', Some ''LE-MONDE'')
   \<and> get_language_info_from_path [''news'', ''en''] = (Some ''NEWS'', Some ''EN'')
   \<and> get_language_info_from_path [''news''] = (None, None)"
  using classifier_rule [of "[''news'', ''en'', ''bbc'', ''2024'']"]
    classifier_rule [of "[''fr'', ''le-monde'']"]
    classifier_rule [of "[''news'', ''en'']"]
    classifier_rule [of "[''news'']"]
  by (simp add: upper_def upper_char_def)

section \<open>Summaries\<close>

lemma shorten_length: "length (shorten s) \<le> 153"
  by (simp add: shorten_def)

lemma shorten_marker: "(shorten s = take 150 s @ ''...'') = (length s > 150)"
proof (cases "length s > 150")
  case True
  then show ?thesis by (simp add: shorten_def)
next
  case False
  then have "take 150 s = s" by simp
  with False show ?thesis by (simp add: shorten_def)
qed

lemma parse_article_summary:
  "parse_article root f = Some a \<Longrightarrow> fcontent f = Some text
   \<Longrightarrow> summary a = shorten (summary_match text)"
  by (auto simp: parse_article_def split: option.splits)

text \<open>
  C8. The summary stored in an article is at most 153 characters long, and it is the
  first 150 characters of the extracted line followed by \<open>...\<close> exactly when the
  extracted line is longer than 150 characters.
\<close>

theorem summary_truncation:
  assumes "parse_article root f = Some a" and "fcontent f = Some text"
  shows "length (summary a) \<le> 153
         \<and> (summary a = take 150 (summary_match text) @ ''...'')
             = (length (summary_match text) > 150)"
  using parse_article_summary [OF assms] shorten_length shorten_marker by simp

theorem summary_truncation_witness:
  "parse_article ''./news/en/bbc'' long_file = Some long_article
   \<and> fcontent long_file = Some long_text
   \<and> length (summary_match long_text) = 151
   \<and> length (summary long_article) \<le> 153
   \<and> (summary long_article = take 150 (summary_match long_text) @ ''...'')
       = (length (summary_match long_text) > 150)"
proof -
  have h1: "parse_article ''./news/en/bbc'' long_file = Some long_article"
    by code_simp
  have h2: "fcontent long_file = Some long_text"
    by (simp add: long_file_def)
  have h3: "length (summary_match long_text) = 151"
    by code_simp
  from summary_truncation [OF h1 h2] h1 h2 h3 show ?thesis by simp
qed

section \<open>An empty structure\<close>

text \<open>
  C9. When the walk finds no qualifying file, so that the structure is empty, the update
  prints that no articles were found, writes nothing and returns failure.
\<close>

theorem empty_structure_fails:
  assumes "fst (get_project_structure (tree e)) = []"
  shows "update_index_html e =
           \<lparr>returned = False, written = None,
            printed = snd (get_project_structure (tree e)) @ [NoArticlesFound]\<rparr>"
  using assms by (simp add: update_index_html_def Let_def)

theorem empty_structure_fails_witness:
  "fst (get_project_structure (tree flat_env)) = []
   \<and> update_index_html flat_env =
       \<lparr>returned = False, written = None, printed = [NoArticlesFound]\<rparr>"
proof -
  have h: "get_project_structure (tree flat_env) = ([], [])"
    by code_simp
  from empty_structure_fails [of flat_env] h show ?thesis by simp
qed

section \<open>Hidden entries\<close>

text \<open>
  C2. A file whose name begins with a dot should contribute no article. The walk drops
  hidden directories only: the hidden file \<open>news/en/bbc/.draft.md\<close> becomes an article,
  while the same file under a hidden directory does not.
\<close>

theorem hidden_file_contributes_article:
  "startswith ''.draft.md'' ''.''
   \<and> fst (get_project_structure hidden_file_tree) =
       [(''EN_BBC'',
         \<lparr>language_code = ''EN'', media_name = Some ''BBC'', folder_path = ''news/en/bbc'',
          articles = [\<lparr>filename = ''.draft.md'', title = ''Draft'', date = ''1970-01-01'',
                       summary = [], filepath = ''./news/en/bbc/.draft.md''\<rparr>]\<rparr>)]
   \<and> fst (get_project_structure hidden_dir_tree) = []"
  by code_simp

section \<open>Stripping the extension\<close>

text \<open>
  C6. The link target should be the file path with its trailing \<open>.md\<close> stripped and
  nothing else altered, and so should the title that stands in for a missing heading.
  For the file \<open>report.md.md\<close>, which has no heading line, every \<open>.md\<close> is removed: the
  link is \<open>./news/en/bbc/report\<close> and the title \<open>report\<close>, where stripping the trailing
  extension gives \<open>./news/en/bbc/report.md\<close> and \<open>report.md\<close>.
\<close>

theorem extension_removed_everywhere:
  "parse_article ''./news/en/bbc'' double_ext_file = Some double_ext_article
   \<and> re_search_bol title_re True ''no heading here'' = None
   \<and> relative_path double_ext_article = ''./news/en/bbc/report''
   \<and> strip_md (filepath double_ext_article) = ''./news/en/bbc/report.md''
   \<and> title double_ext_article = ''report''
   \<and> strip_md (filename double_ext_article) = ''report.md''"
  by code_simp

section \<open>Facts about matching and substitution\<close>

lemma rmatch_concat:
  "rmatch p s = Some (segs, rest) \<Longrightarrow> segs \<noteq> [] \<and> concat segs @ rest = s"
proof (induction p s arbitrary: segs rest rule: rmatch.induct)
  case (1 s)
  then show ?case by auto
next
  case (2 r s)
  then show ?case by (cases "rmatch r s") auto
next
  case (3 r)
  then show ?case by simp
next
  case (4 r x xs)
  then show ?case by (simp split: if_splits)
next
  case (5 c r)
  then show ?case by simp
next
  case (6 c r x xs)
  then show ?case
    by (cases "rmatch r xs"; cases "cls_ok c x") (auto split: list.splits simp: neq_Nil_conv)
next
  case (7 c r)
  then show ?case by simp
next
  case (8 c r x xs)
  then show ?case
    by (cases "rmatch (StarG c # r) xs"; cases "cls_ok c x") (auto split: list.splits simp: neq_Nil_conv)
next
  case (9 c r)
  then show ?case by simp
next
  case (10 c r x xs)
  then show ?case
    by (cases "rmatch r (x # xs)"; cases "rmatch (StarL c # r) xs"; cases "cls_ok c x")
       (auto split: list.splits simp: neq_Nil_conv)
qed

lemma rmatch_One_consumes:
  assumes a: "rmatch (One c # r) s = Some (segs, rest)"
  shows "length rest < length s"
proof (cases s)
  case Nil
  with a show ?thesis by simp
next
  case (Cons x xs)
  with a obtain res where r: "rmatch r xs = Some res" by (auto split: if_splits)
  obtain sg rs where res: "res = (sg, rs)" by (cases res)
  from a Cons r res have "rest = rs" by (cases sg) (auto split: if_splits)
  moreover from rmatch_concat r res have "concat sg @ rs = xs" by blast
  then have "length rs \<le> length xs" by (metis length_append le_add2)
  ultimately show ?thesis using Cons by simp
qed

lemma re_search_concat:
  "re_search p s = Some (pre, segs, rest) \<Longrightarrow> s = pre @ concat segs @ rest"
proof (induction s arbitrary: pre)
  case Nil
  then show ?case by (cases "rmatch p []") (auto dest: rmatch_concat)
next
  case (Cons x xs)
  show ?case
  proof (cases "rmatch p (x # xs)")
    case None
    with Cons.prems obtain pre' where "re_search p xs = Some (pre', segs, rest)" "pre = x # pre'"
      by (cases "re_search p xs") auto
    with Cons.IH show ?thesis by simp
  next
    case (Some m)
    obtain sg rs where m: "m = (sg, rs)" by (cases m)
    with Some Cons.prems have e: "pre = []" "segs = sg" "rest = rs" by auto
    with rmatch_concat Some m show ?thesis by fastforce
  qed
qed

lemma re_search_rmatch:
  "re_search p s = Some (pre, segs, rest) \<Longrightarrow> rmatch p (drop (length pre) s) = Some (segs, rest)"
proof (induction s arbitrary: pre)
  case Nil
  then show ?case by (cases "rmatch p []") auto
next
  case (Cons x xs)
  show ?case
  proof (cases "rmatch p (x # xs)")
    case None
    with Cons.prems obtain pre' where "re_search p xs = Some (pre', segs, rest)" "pre = x # pre'"
      by (cases "re_search p xs") auto
    with Cons.IH show ?thesis by simp
  next
    case (Some m)
    with Cons.prems show ?thesis by (cases m) auto
  qed
qed

lemma re_sub_loop_no_match:
  "re_search p s = None \<Longrightarrow> re_sub_loop p f s = s"
  by (induction s) (auto split: option.splits)

lemma re_sub_loop_first:
  "re_search (One c # r) s = Some (pre, segs, rest)
   \<Longrightarrow> re_sub_loop (One c # r) f s = pre @ f segs @ re_sub_loop (One c # r) f rest"
proof (induction s arbitrary: pre)
  case Nil
  then show ?case by simp
next
  case (Cons x xs)
  show ?case
  proof (cases "rmatch (One c # r) (x # xs)")
    case None
    with Cons.prems obtain pre' where "re_search (One c # r) xs = Some (pre', segs, rest)" "pre = x # pre'"
      by (cases "re_search (One c # r) xs") auto
    with Cons.IH None show ?thesis by simp
  next
    case (Some m)
    obtain sg rs where m: "m = (sg, rs)" by (cases m)
    with Some Cons.prems have e: "pre = []" "segs = sg" "rest = rs" by auto
    from rmatch_One_consumes Some m have "length rs < length (x # xs)" by blast
    with Some m e show ?thesis by simp
  qed
qed

section \<open>A template without a news-list region\<close>

lemma sub_news_list_missing:
  assumes "re_search news_list_re doc = None"
    and "parse_template 2 ([CHR 0x5C, CHR ''1''] @ html @ [CHR 0x5C, CHR ''2'']) = Inr t"
  shows "sub_news_list html doc = Inr doc"
  using assms by (simp add: sub_news_list_def re_sub_def re_sub_loop_no_match)

text \<open>
  C1. The claim that a template without a news-list region makes the update fail does
  not hold: for the page \<open><html><body></body></html>\<close> and one article, the update
  writes the page as it stands and returns success.
\<close>

theorem missing_news_list_counterexample:
  "re_search news_list_re bare_page = None
   \<and> returned (update_index_html bare_env) = True
   \<and> written (update_index_html bare_env) = Some bare_page"
  by code_simp

text \<open>
  C1, as amended. When the document has no news-list region, the news-list substitution
  changes nothing and raises nothing: if the structure is not empty, the template can be
  read, both replacement strings are well formed and the output can be written, the
  update writes the document (the template after the showcase substitution) and returns
  success.
\<close>

theorem missing_news_list_region_is_silent:
  assumes "get_project_structure (tree e) = (st, log)" and "st \<noteq> []"
    and "generate_news_list_html st = (news_list_html, st')"
    and "template e = Some template_content"
    and "sub_language_showcase
           (generate_language_showcase_html (get_existing_languages st')) template_content
         = Inr doc"
    and "re_search news_list_re doc = None"
    and "parse_template 2 ([CHR 0x5C, CHR ''1''] @ news_list_html @ [CHR 0x5C, CHR ''2'']) = Inr t"
    and "output_writable e"
  shows "sub_news_list news_list_html doc = Inr doc
         \<and> returned (update_index_html e) = True
         \<and> written (update_index_html e) = Some doc"
proof -
  have s: "sub_news_list news_list_html doc = Inr doc"
    using assms(6,7) by (rule sub_news_list_missing)
  with assms show ?thesis
    by (simp add: update_index_html_def Let_def)
qed

theorem missing_news_list_region_is_silent_witness:
  "get_project_structure (tree bare_env) = (story_structure, [])
   \<and> re_search news_list_re bare_page = None
   \<and> returned (update_index_html bare_env) = True
   \<and> written (update_index_html bare_env) = Some bare_page"
proof -
  have h1: "get_project_structure (tree bare_env) = (story_structure, [])"
    by code_simp
  have h2: "story_structure \<noteq> []"
    by (simp add: story_structure_def)
  obtain html st' where h3: "generate_news_list_html story_structure = (html, st')"
    by (cases "generate_news_list_html story_structure")
  have h4: "template bare_env = Some bare_page"
    by (simp add: bare_env_def)
  have h5: "sub_language_showcase
              (generate_language_showcase_html
                (get_existing_languages (snd (generate_news_list_html story_structure))))
              bare_page = Inr bare_page"
    by code_simp
  have h6: "re_search news_list_re bare_page = None"
    by code_simp
  have "\<not> isl (parse_template 2
          ([CHR 0x5C, CHR ''1''] @ fst (generate_news_list_html story_structure) @ [CHR 0x5C, CHR ''2'']))"
    by code_simp
  with h3 obtain t where
    h7: "parse_template 2 ([CHR 0x5C, CHR ''1''] @ html @ [CHR 0x5C, CHR ''2'']) = Inr t"
    by (cases "parse_template 2 ([CHR 0x5C, CHR ''1''] @ html @ [CHR 0x5C, CHR ''2''])") auto
  have h8: "output_writable bare_env"
    by (simp add: bare_env_def)
  from h5 h3 have h5': "sub_language_showcase
        (generate_language_showcase_html (get_existing_languages st')) bare_page = Inr bare_page"
    by simp
  from missing_news_list_region_is_silent [OF h1 h2 h3 h4 h5' h6 h7 h8] h1 h6
  show ?thesis by blast
qed

section \<open>Rendering and the structure\<close>

lemma dict_set_map:
  "distinct (map fst d) \<Longrightarrow> k \<in> set (map fst d)
   \<Longrightarrow> dict_set k v d = map (\<lambda>kv. if fst kv = k then (k, v) else kv) d"
proof (induction d)
  case Nil
  then show ?case by simp
next
  case (Cons p d)
  obtain k' v' where p: "p = (k', v')" by (cases p)
  show ?case
  proof (cases "k' = k")
    case True
    with Cons.prems p have "k \<notin> set (map fst d)" by simp
    then have "map (\<lambda>kv. if fst kv = k then (k, v) else kv) d = d"
      by (induction d) auto
    with True p show ?thesis by simp
  next
    case False
    with Cons p show ?thesis by simp
  qed
qed

lemma render_folder_snd:
  assumes "distinct (map fst st)" and "map_of st k = Some g"
  shows "snd (render_folder (items, st) k)
         = map (\<lambda>kv. if fst kv = k then (fst kv, (snd kv)\<lparr>articles := sort_newest_first (articles (snd kv))\<rparr>) else kv) st"
proof -
  from assms(2) have kin: "k \<in> set (map fst st)"
    by (metis map_of_eq_None_iff option.distinct(1) set_map)
  have "\<And>kv. kv \<in> set st \<Longrightarrow> fst kv = k \<Longrightarrow> snd kv = g"
    using assms by (metis map_of_is_SomeI option.inject prod.collapse)
  then have eq: "map (\<lambda>kv. if fst kv = k then (k, g\<lparr>articles := sort_newest_first (articles g)\<rparr>) else kv) st
             = map (\<lambda>kv. if fst kv = k then (fst kv, (snd kv)\<lparr>articles := sort_newest_first (articles (snd kv))\<rparr>) else kv) st"
    by (intro map_cong) auto
  have "snd (render_folder (items, st) k) = dict_set k (g\<lparr>articles := sort_newest_first (articles g)\<rparr>) st"
    using assms(2) by (simp add: render_folder_def Let_def)
  also have "\<dots> = map (\<lambda>kv. if fst kv = k then (k, g\<lparr>articles := sort_newest_first (articles g)\<rparr>) else kv) st"
    by (rule dict_set_map [OF assms(1) kin])
  finally show ?thesis using eq by simp
qed

lemma render_loop_snd:
  assumes "distinct (map fst st0)"
  shows "distinct ks \<Longrightarrow> set ks \<subseteq> set (map fst st0) \<Longrightarrow> set ks \<inter> K = {}
   \<Longrightarrow> snd (foldl render_folder
              (items, map (\<lambda>kv. if fst kv \<in> K then (fst kv, (snd kv)\<lparr>articles := sort_newest_first (articles (snd kv))\<rparr>) else kv) st0) ks)
       = map (\<lambda>kv. if fst kv \<in> K \<union> set ks then (fst kv, (snd kv)\<lparr>articles := sort_newest_first (articles (snd kv))\<rparr>) else kv) st0"
proof (induction ks arbitrary: items K)
  case Nil
  then show ?case by simp
next
  case (Cons k ks)
  let ?u = "\<lambda>K. (\<lambda>kv. if fst kv \<in> K then (fst kv, (snd kv)\<lparr>articles := sort_newest_first (articles (snd kv))\<rparr>) else kv)"
  let ?st = "map (?u K) st0"
  have fst_eq: "map fst ?st = map fst st0" by (induction st0) auto
  from assms have d: "distinct (map fst ?st)" by (simp only: fst_eq)
  from Cons.prems have kK: "k \<notin> K" and kin: "k \<in> set (map fst st0)" by auto
  then obtain g where g0: "map_of st0 k = Some g"
    by (metis map_of_eq_None_iff not_Some_eq set_map)
  have "map_of ?st k = Some g"
    using g0 kK by (induction st0) (auto split: if_splits)
  from render_folder_snd [OF d this, of items]
  have "snd (render_folder (items, ?st) k)
        = map (\<lambda>kv. if fst kv = k then (fst kv, (snd kv)\<lparr>articles := sort_newest_first (articles (snd kv))\<rparr>) else kv) ?st" .
  also have "\<dots> = map (?u (insert k K)) st0"
    using kK by (induction st0) auto
  finally have step: "snd (render_folder (items, ?st) k) = map (?u (insert k K)) st0" .
  obtain items' where r: "render_folder (items, ?st) k = (items', map (?u (insert k K)) st0)"
    using step by (cases "render_folder (items, ?st) k") auto
  from Cons.prems have "distinct ks" "set ks \<subseteq> set (map fst st0)" "set ks \<inter> insert k K = {}"
    by auto
  from Cons.IH [OF this, of items'] r show ?case by simp
qed

lemma news_list_structure:
  assumes "distinct (map fst st)"
  shows "snd (generate_news_list_html st) = map (\<lambda>kv. (fst kv, (snd kv)\<lparr>articles := sort_newest_first (articles (snd kv))\<rparr>)) st"
proof -
  have a: "distinct (sort (map fst st))" using assms by simp
  have b: "set (sort (map fst st)) \<subseteq> set (map fst st)" by simp
  have "map (\<lambda>kv. if fst kv \<in> {} then (fst kv, (snd kv)\<lparr>articles := sort_newest_first (articles (snd kv))\<rparr>) else kv) st = st"
    by simp
  with render_loop_snd [OF assms a b, of "{}" "[]"]
  have "snd (foldl render_folder ([], st) (sort (map fst st)))
        = map (\<lambda>kv. if fst kv \<in> set (sort (map fst st)) then (fst kv, (snd kv)\<lparr>articles := sort_newest_first (articles (snd kv))\<rparr>) else kv) st"
    by simp
  also have "\<dots> = map (\<lambda>kv. (fst kv, (snd kv)\<lparr>articles := sort_newest_first (articles (snd kv))\<rparr>)) st"
    by (intro map_cong) auto
  finally show ?thesis by (simp add: generate_news_list_html_def Let_def)
qed

lemma sort_newest_first_stably: "newest_first_stably arts (sort_newest_first arts)"
proof -
  have "sorted (rev (map date (sort_newest_first arts)))"
    by (simp add: sort_newest_first_def rev_map)
  moreover have "filter (\<lambda>a. date a = d) (sort_newest_first arts) = filter (\<lambda>a. date a = d) arts" for d
  proof -
    have "filter (\<lambda>a. date a = d) (sort_key date (rev arts)) = filter (\<lambda>a. date a = d) (rev arts)"
      by (rule sort_key_stable)
    then show ?thesis by (simp add: sort_newest_first_def rev_filter [symmetric])
  qed
  moreover have "mset (sort_newest_first arts) = mset arts"
    by (simp add: sort_newest_first_def)
  ultimately show ?thesis by (simp add: newest_first_stably_def)
qed

lemma dict_set_keeps:
  "map_of d k = Some g \<Longrightarrow> h v = h g
   \<Longrightarrow> map (\<lambda>kv. h (snd kv)) (dict_set k v d) = map (\<lambda>kv. h (snd kv)) d"
  by (induction d) (auto split: if_splits)

lemma render_folder_languages:
  "map (\<lambda>kv. language_code (snd kv)) (snd (render_folder acc k))
     = map (\<lambda>kv. language_code (snd kv)) (snd acc)"
proof (cases "map_of (snd acc) k")
  case None
  then show ?thesis by (simp add: render_folder_def)
next
  case (Some g)
  then show ?thesis
    by (simp add: render_folder_def Let_def dict_set_keeps [where h = language_code])
qed

lemma render_loop_languages:
  "map (\<lambda>kv. language_code (snd kv)) (snd (foldl render_folder acc ks))
     = map (\<lambda>kv. language_code (snd kv)) (snd acc)"
  by (induction ks arbitrary: acc) (simp_all add: render_folder_languages)

lemma news_list_languages:
  "map (\<lambda>kv. language_code (snd kv)) (snd (generate_news_list_html st))
     = map (\<lambda>kv. language_code (snd kv)) st"
  using render_loop_languages [of "([], st)" "sort (map fst st)"]
  by (simp add: generate_news_list_html_def Let_def)

lemma languages_from_codes:
  "map (\<lambda>kv. language_code (snd kv)) st2 = map (\<lambda>kv. language_code (snd kv)) st
   \<Longrightarrow> get_existing_languages st2 = get_existing_languages st"
  by (simp add: get_existing_languages_def)



text \<open>
  C5. The claim that rendering leaves the structure as it was fails for the news list:
  the article list of a folder is sorted in place, newest first, so a list in another
  order is changed by the call.
\<close>

theorem news_list_reorders_counterexample:
  "map (\<lambda>kv. map date (articles (snd kv))) two_stories = [[''2024-03-01'', ''2024-03-02'']]
   \<and> map (\<lambda>kv. map date (articles (snd kv))) (snd (generate_news_list_html two_stories))
       = [[''2024-03-02'', ''2024-03-01'']]
   \<and> snd (generate_news_list_html two_stories) \<noteq> two_stories"
  by code_simp

text \<open>
  C5, as amended. The showcase step only reads the structure: its fragment depends on
  the language codes of the groups alone, and it is the same before and after the
  news-list step. The news-list step returns the structure with the same keys in the
  same order, each folder with the same language code, media name and folder path, and
  with the same articles sorted by date, newest first, the articles of one date keeping
  the order they had: the article lists are reordered and nothing else changes.
\<close>

theorem news_list_sorts_in_place:
  assumes "distinct (map fst st)"
  shows "list_all2 reordered_group st (snd (generate_news_list_html st))
         \<and> generate_language_showcase_html (get_existing_languages (snd (generate_news_list_html st)))
             = generate_language_showcase_html (get_existing_languages st)
         \<and> (map (\<lambda>kv. language_code (snd kv)) st2 = map (\<lambda>kv. language_code (snd kv)) st
              \<longrightarrow> generate_language_showcase_html (get_existing_languages st2)
                  = generate_language_showcase_html (get_existing_languages st))"
proof (intro conjI impI)
  have "list_all2 reordered_group st
          (map (\<lambda>kv. (fst kv, (snd kv)\<lparr>articles := sort_newest_first (articles (snd kv))\<rparr>)) st)"
    by (induction st) (simp_all add: reordered_group_def sort_newest_first_stably)
  then show "list_all2 reordered_group st (snd (generate_news_list_html st))"
    by (simp add: news_list_structure [OF assms])
next
  show "generate_language_showcase_html (get_existing_languages (snd (generate_news_list_html st)))
          = generate_language_showcase_html (get_existing_languages st)"
    using languages_from_codes [OF news_list_languages] by simp
next
  assume "map (\<lambda>kv. language_code (snd kv)) st2 = map (\<lambda>kv. language_code (snd kv)) st"
  then have "get_existing_languages st2 = get_existing_languages st"
    by (rule languages_from_codes)
  then show "generate_language_showcase_html (get_existing_languages st2)
               = generate_language_showcase_html (get_existing_languages st)"
    by (rule arg_cong)
qed

theorem news_list_sorts_in_place_witness:
  "distinct (map fst two_stories)
   \<and> list_all2 reordered_group two_stories (snd (generate_news_list_html two_stories))
   \<and> map (\<lambda>kv. map date (articles (snd kv))) (snd (generate_news_list_html two_stories))
       = [[''2024-03-02'', ''2024-03-01'']]
   \<and> generate_language_showcase_html
         (get_existing_languages (snd (generate_news_list_html two_stories)))
       = generate_language_showcase_html (get_existing_languages two_stories)
   \<and> generate_language_showcase_html (get_existing_languages story_structure)
       = generate_language_showcase_html (get_existing_languages two_stories)"
proof -
  have h: "distinct (map fst two_stories)"
    by (simp add: two_stories_def)
  have c: "map (\<lambda>kv. language_code (snd kv)) story_structure
             = map (\<lambda>kv. language_code (snd kv)) two_stories"
    by (simp add: story_structure_def two_stories_def)
  have d: "map (\<lambda>kv. map date (articles (snd kv))) (snd (generate_news_list_html two_stories))
             = [[''2024-03-02'', ''2024-03-01'']]"
    by code_simp
  from news_list_sorts_in_place [OF h, of story_structure] h c d show ?thesis by blast
qed

section \<open>The language showcase of an empty language list\<close>




section \<open>The date of an article\<close>

lemma rmatch_digits:
  "rmatch (replicate n (One Digit)) s =
     (if n \<le> length s \<and> list_all is_digit (take n s) then Some ([take n s], drop n s) else None)"
proof (induction n arbitrary: s)
  case 0
  then show ?case by simp
next
  case (Suc n)
  show ?case
  proof (cases s)
    case Nil
    then show ?thesis by simp
  next
    case (Cons x xs)
    with Suc show ?thesis by simp
  qed
qed

lemma rmatch_date_re:
  "rmatch date_re s = (if digits_at s 0 then Some ([take 8 s], drop 8 s) else None)"
  by (simp add: date_re_def digits_at_def rmatch_digits)

lemma digits_at_Cons: "digits_at (x # xs) (Suc i) = digits_at xs i"
  by (simp add: digits_at_def add.commute)

lemma re_search_date_none:
  "(\<forall>i. \<not> digits_at s i) \<Longrightarrow> re_search date_re s = None"
proof (induction s)
  case Nil
  then show ?case by (simp add: rmatch_date_re)
next
  case (Cons x xs)
  from Cons.prems have "\<not> digits_at (x # xs) 0" by blast
  moreover from Cons.prems have "\<forall>i. \<not> digits_at xs i"
    using digits_at_Cons by blast
  ultimately show ?case using Cons.IH by (simp add: rmatch_date_re)
qed

lemma re_search_date_first:
  "(\<forall>i<length pre. \<not> digits_at (pre @ s) i) \<Longrightarrow> digits_at s 0
   \<Longrightarrow> re_search date_re (pre @ s) = Some (pre, [take 8 s], drop 8 s)"
proof (induction pre)
  case Nil
  then have "s \<noteq> []" by (auto simp: digits_at_def)
  then obtain x xs where "s = x # xs" by (cases s) auto
  with Nil show ?case by (simp add: rmatch_date_re)
next
  case (Cons x pre)
  from Cons.prems(1) have "\<not> digits_at (x # pre @ s) 0" by auto
  moreover have "\<forall>i<length pre. \<not> digits_at (pre @ s) i"
  proof (intro allI impI)
    fix i assume "i < length pre"
    with Cons.prems(1) have "\<not> digits_at ((x # pre) @ s) (Suc i)" by auto
    then show "\<not> digits_at (pre @ s) i" by (simp add: digits_at_Cons)
  qed
  ultimately show ?case using Cons.IH Cons.prems(2) by (simp add: rmatch_date_re)
qed

lemma extract_date_first_run:
  assumes "\<forall>i<length pre. \<not> digits_at (pre @ run @ post) i"
    and "length run = 8" and "list_all is_digit run"
  shows "extract_date (pre @ run @ post) mt =
           (case strptime_Ymd run of Some d \<Rightarrow> Some (strftime_Ymd d) | None \<Rightarrow> Some run)"
proof -
  from assms(2,3) have "digits_at (run @ post) 0" by (simp add: digits_at_def)
  with assms(1) have "re_search date_re (pre @ run @ post)
      = Some (pre, [take 8 (run @ post)], drop 8 (run @ post))"
    by (rule re_search_date_first)
  with assms(2) show ?thesis by (simp add: extract_date_def seg_def)
qed

lemma date_20240115:
  "(case strptime_Ymd ''20240115'' of Some d \<Rightarrow> Some (strftime_Ymd d) | None \<Rightarrow> Some ''20240115'')
     = Some ''2024-01-15''"
  by code_simp

lemma date_99999999:
  "(case strptime_Ymd ''99999999'' of Some d \<Rightarrow> Some (strftime_Ymd d) | None \<Rightarrow> Some ''99999999'')
     = Some ''99999999''"
  by code_simp

lemma parse_article_date:
  "parse_article root f = Some a \<Longrightarrow> extract_date (fname f) (mtime f) = Some (date a)"
  by (auto simp: parse_article_def split: option.splits)

text \<open>
  C4. The claim that a file name containing \<open>20240115\<close> anywhere gives the date
  \<open>2024-01-15\<close>, and one containing \<open>99999999\<close> the raw string, fails when another run
  of eight digits comes first: \<open>19990101_20240115.md\<close> is dated \<open>1999-01-01\<close> and
  \<open>20240115_99999999.md\<close> is dated \<open>2024-01-15\<close>.
\<close>

theorem date_anywhere_counterexample:
  "map_option date (parse_article ''./news/en/bbc'' two_dates_file) = Some ''1999-01-01''
   \<and> map_option date (parse_article ''./news/en/bbc'' late_nines_file) = Some ''2024-01-15''"
  by code_simp

text \<open>
  C4, as amended. The first run of eight digits in the file name decides the date of
  an extracted article: if the name contains \<open>20240115\<close> and no eight digits in a row
  start before it, the date is \<open>2024-01-15\<close>; if it contains \<open>99999999\<close> and no eight
  digits in a row start before it, the date is the raw string \<open>99999999\<close>; and if the
  name has no eight digits in a row, the date is the modification time of the file
  formatted by \<open>%Y-%m-%d\<close>.
\<close>

theorem date_from_first_run:
  assumes "parse_article root f = Some a"
  shows "(fname f = pre @ ''20240115'' @ post \<and> (\<forall>i<length pre. \<not> digits_at (fname f) i)
            \<longrightarrow> date a = ''2024-01-15'')
         \<and> (fname f = pre @ ''99999999'' @ post \<and> (\<forall>i<length pre. \<not> digits_at (fname f) i)
            \<longrightarrow> date a = ''99999999'')
         \<and> ((\<forall>i. \<not> digits_at (fname f) i)
            \<longrightarrow> map_option strftime_Ymd (fromtimestamp (mtime f)) = Some (date a))"
proof (intro conjI impI)
  assume h: "fname f = pre @ ''20240115'' @ post \<and> (\<forall>i<length pre. \<not> digits_at (fname f) i)"
  then have eq: "fname f = pre @ ''20240115'' @ post"
    and nd: "\<forall>i<length pre. \<not> digits_at (fname f) i"
    by blast+
  from nd have "\<forall>i<length pre. \<not> digits_at (pre @ ''20240115'' @ post) i"
    by (simp only: eq)
  then have "extract_date (pre @ ''20240115'' @ post) (mtime f) = Some ''2024-01-15''"
    using extract_date_first_run [of pre "''20240115''" post "mtime f"] date_20240115
    by (simp add: is_digit_def)
  with h parse_article_date [OF assms] show "date a = ''2024-01-15''" by simp
next
  assume h: "fname f = pre @ ''99999999'' @ post \<and> (\<forall>i<length pre. \<not> digits_at (fname f) i)"
  then have eq: "fname f = pre @ ''99999999'' @ post"
    and nd: "\<forall>i<length pre. \<not> digits_at (fname f) i"
    by blast+
  from nd have "\<forall>i<length pre. \<not> digits_at (pre @ ''99999999'' @ post) i"
    by (simp only: eq)
  then have "extract_date (pre @ ''99999999'' @ post) (mtime f) = Some ''99999999''"
    using extract_date_first_run [of pre "''99999999''" post "mtime f"] date_99999999
    by (simp add: is_digit_def)
  with h parse_article_date [OF assms] show "date a = ''99999999''" by simp
next
  assume "\<forall>i. \<not> digits_at (fname f) i"
  then have "re_search date_re (fname f) = None" by (rule re_search_date_none)
  then have "extract_date (fname f) (mtime f) = map_option strftime_Ymd (fromtimestamp (mtime f))"
    by (simp add: extract_date_def)
  with parse_article_date [OF assms]
  show "map_option strftime_Ymd (fromtimestamp (mtime f)) = Some (date a)" by simp
qed

theorem date_from_first_run_witness:
  "map_option date (parse_article ''./news/en/bbc'' dated_file) = Some ''2024-01-15''
   \<and> map_option date (parse_article ''./news/en/bbc'' nines_file) = Some ''99999999''
   \<and> map_option date (parse_article ''./news/en/bbc'' undated_file) = Some ''2024-03-01''"
proof -
  have "parse_article ''./news/en/bbc'' dated_file \<noteq> None" by code_simp
  then obtain a1 where p1: "parse_article ''./news/en/bbc'' dated_file = Some a1" by blast
  have e1: "fname dated_file = ''bbc_'' @ ''20240115'' @ ''_story.md''"
    by (simp add: dated_file_def)
  have "list_all (\<lambda>i. \<not> digits_at (fname dated_file) i) [0..<4]" by code_simp
  then have n1: "\<forall>i<length ''bbc_''. \<not> digits_at (fname dated_file) i"
    by (auto simp: list_all_iff)
  from date_from_first_run [OF p1, of "''bbc_''" "''_story.md''"] e1 n1
  have d1: "date a1 = ''2024-01-15''" by blast
  have "parse_article ''./news/en/bbc'' nines_file \<noteq> None" by code_simp
  then obtain a2 where p2: "parse_article ''./news/en/bbc'' nines_file = Some a2" by blast
  have e2: "fname nines_file = ''bbc_'' @ ''99999999'' @ ''.md''"
    by (simp add: nines_file_def)
  have "list_all (\<lambda>i. \<not> digits_at (fname nines_file) i) [0..<4]" by code_simp
  then have n2: "\<forall>i<length ''bbc_''. \<not> digits_at (fname nines_file) i"
    by (auto simp: list_all_iff)
  from date_from_first_run [OF p2, of "''bbc_''" "''.md''"] e2 n2
  have d2: "date a2 = ''99999999''" by blast
  have "parse_article ''./news/en/bbc'' undated_file \<noteq> None" by code_simp
  then obtain a3 where p3: "parse_article ''./news/en/bbc'' undated_file = Some a3" by blast
  have n3: "\<forall>i. \<not> digits_at (fname undated_file) i"
    by (auto simp: digits_at_def undated_file_def is_digit_def)
  have m3: "map_option strftime_Ymd (fromtimestamp (mtime undated_file)) = Some ''2024-03-01''"
    by code_simp
  from date_from_first_run [OF p3] n3 m3
  have d3: "date a3 = ''2024-03-01''" by simp
  from p1 d1 p2 d2 p3 d3 show ?thesis by simp
qed

section \<open>Groups and their keys\<close>

lemma split_on_no_sep: "sep \<notin> set d \<Longrightarrow> split_on sep d = [d]"
  by (induction d) auto

lemma split_on_not_Nil: "split_on sep s \<noteq> []"
  by (induction s) (auto split: list.splits)

lemma split_on_append:
  "split_on sep (a @ sep # b) = split_on sep a @ split_on sep b"
proof (induction a)
  case Nil
  then show ?case by simp
next
  case (Cons c a)
  obtain w ws where "split_on sep a = w # ws"
    using split_on_not_Nil by (cases "split_on sep a") auto
  with Cons show ?case by simp
qed

lemma split_on_first:
  "split_on sep s = w # ws
   \<Longrightarrow> (ws = [] \<and> s = w) \<or> (\<exists>r. s = w @ sep # r \<and> split_on sep r = ws)"
proof (induction s arbitrary: w ws)
  case Nil
  then show ?case by simp
next
  case (Cons c s)
  show ?case
  proof (cases "c = sep")
    case True
    with Cons.prems show ?thesis by auto
  next
    case False
    obtain w' ws' where s: "split_on sep s = w' # ws'"
      using split_on_not_Nil by (cases "split_on sep s") auto
    with False Cons.prems have e: "w = c # w'" "ws = ws'" by auto
    from Cons.IH [OF s] e show ?thesis by auto
  qed
qed

lemma root_ok_dot: "root_ok ''.''"
  by (simp add: root_ok_def)

lemma root_ok_join:
  assumes "root_ok walk_top" and "d \<noteq> []" and "CHR ''/'' \<notin> set d"
  shows "root_ok (path_join walk_top d)"
proof -
  from assms(1) obtain ws where sp: "split_on (CHR ''/'') walk_top = ''.'' # ws" and ne: "[] \<notin> set ws"
    by (auto simp: root_ok_def split: list.splits)
  from sp have t: "walk_top \<noteq> []" by auto
  have ns: "\<not> startswith d ''/''"
    using assms(2,3) by (cases d) (auto simp: startswith_def)
  have nend: "\<not> endswith walk_top ''/''"
  proof
    assume "endswith walk_top ''/''"
    then have "walk_top = take (length walk_top - 1) walk_top @ CHR ''/'' # []"
      by (metis append_take_drop_id endswith_def length_Cons list.size(3) One_nat_def)
    then have eq: "split_on (CHR ''/'') walk_top
                 = split_on (CHR ''/'') (take (length walk_top - 1) walk_top) @ split_on (CHR ''/'') []"
      using split_on_append by metis
    have "[] \<in> set (split_on (CHR ''/'') walk_top)"
      by (subst eq) simp
    with sp ne show False by simp
  qed
  from t ns nend have "path_join walk_top d = walk_top @ CHR ''/'' # d"
    by (simp add: path_join_def)
  then have "split_on (CHR ''/'') (path_join walk_top d) = (''.'' # ws) @ [d]"
    using split_on_append sp split_on_no_sep [OF assms(3)] by simp
  with ne assms(2) show ?thesis by (simp add: root_ok_def)
qed

lemma root_ok_parts:
  assumes "root_ok root" and "root \<noteq> ''.''"
  shows "[] \<notin> set (split_on (CHR ''/'') (relpath root))"
proof -
  from assms(1) obtain ws where sp: "split_on (CHR ''/'') root = ''.'' # ws" and ne: "[] \<notin> set ws"
    by (auto simp: root_ok_def split: list.splits)
  from split_on_first [OF sp] assms(2) obtain r where
    r: "root = ''.'' @ CHR ''/'' # r" "split_on (CHR ''/'') r = ws"
    by auto
  then have "relpath root = r" by (simp add: relpath_def startswith_def)
  with r ne show ?thesis by simp
qed

lemma os_walk_roots:
  "root_ok walk_top \<Longrightarrow> wf_dir t \<Longrightarrow> \<forall>e \<in> set (os_walk walk_top t). root_ok (fst e)"
  "root_ok walk_top \<Longrightarrow> wf_dirs subs \<Longrightarrow> \<forall>e \<in> set (os_walk_dirs walk_top subs). root_ok (fst e)"
proof (induction walk_top t and walk_top subs rule: os_walk_os_walk_dirs.induct)
  case (1 walk_top files subdirs)
  then show ?case by simp
next
  case (2 walk_top)
  then show ?case by simp
next
  case (3 walk_top d sub rest)
  then show ?case by (auto simp: root_ok_join)
qed

lemma upper_empty: "(upper s = []) = (s = [])"
  by (simp add: upper_def)

lemma classifier_media:
  assumes "[] \<notin> set path_parts" and "fst (get_language_info_from_path path_parts) = Some lang_code"
  shows "\<exists>m. snd (get_language_info_from_path path_parts) = Some m \<and> m \<noteq> []"
proof -
  have "\<And>i. i < length path_parts \<Longrightarrow> upper (path_parts ! i) \<noteq> []"
    using assms(1) by (metis nth_mem upper_empty)
  with assms(2) show ?thesis
    by (auto simp: get_language_info_from_path_def split: if_splits)
qed

lemma set_dict_set: "set (dict_set k v d) \<subseteq> insert (k, v) (set d)"
  by (induction d) (auto split: if_splits)

lemma add_article_ok:
  assumes "list_all group_ok st"
  shows "list_all group_ok (add_article folder_key a st)"
proof (cases "map_of st folder_key")
  case None
  with assms show ?thesis by (simp add: add_article_def)
next
  case (Some g)
  then have "(folder_key, g) \<in> set st" by (rule map_of_SomeD)
  with assms have "group_ok (folder_key, g)" by (auto simp: list_all_iff)
  then have "group_ok (folder_key, g\<lparr>articles := articles g @ [a]\<rparr>)"
    by (auto simp: group_ok_def split: option.splits)
  with assms set_dict_set [of folder_key "g\<lparr>articles := articles g @ [a]\<rparr>" st] Some
  show ?thesis by (auto simp: add_article_def list_all_iff)
qed

lemma process_file_ok:
  "list_all group_ok (fst acc) \<Longrightarrow> list_all group_ok (fst (process_file root folder_key acc f))"
  by (simp add: process_file_def add_article_ok split: option.splits)

lemma process_files_ok:
  "list_all group_ok (fst acc)
   \<Longrightarrow> list_all group_ok (fst (foldl (process_file root folder_key) acc files))"
  by (induction files arbitrary: acc) (simp_all add: process_file_ok)

lemma visit_ok:
  assumes "list_all group_ok (fst acc)" and "root_ok (fst entry)"
  shows "list_all group_ok (fst (visit acc entry))"
proof (cases "fst entry = ''.''")
  case True
  with assms(1) show ?thesis by (simp add: visit_def)
next
  case False
  let ?parts = "split_on (CHR ''/'') (relpath (fst entry))"
  let ?info = "get_language_info_from_path ?parts"
  from root_ok_parts [OF assms(2) False] have ne: "[] \<notin> set ?parts" .
  show ?thesis
  proof (cases "fst ?info")
    case None
    with False assms(1) show ?thesis by (simp add: visit_def Let_def)
  next
    case (Some lang_code)
    from classifier_media [OF ne Some] obtain m where m: "snd ?info = Some m" "m \<noteq> []" by blast
    let ?g = "\<lparr>language_code = lang_code, media_name = snd ?info,
               folder_path = relpath (fst entry), articles = []\<rparr>"
    have "group_ok (folder_key_of lang_code (snd ?info), ?g)"
      using m by (simp add: group_ok_def folder_key_of_def)
    with assms(1) have "list_all group_ok (fst acc @ [(folder_key_of lang_code (snd ?info), ?g)])"
      by simp
    with assms(1) False Some show ?thesis
      by (simp add: visit_def Let_def process_files_ok)
  qed
qed

lemma visit_all_ok:
  "list_all group_ok (fst acc) \<Longrightarrow> \<forall>e \<in> set entries. root_ok (fst e)
   \<Longrightarrow> list_all group_ok (fst (foldl visit acc entries))"
  by (induction entries arbitrary: acc) (simp_all add: visit_ok)

text \<open>
  C10. The classifier returns a language code and a media name together or neither of
  them. So, for a tree whose directory names are not empty and hold no slash (as the
  names of a file system are), every group of the structure has a media name and its
  key is \<open>{LANG}_{MEDIA}\<close>: the key that is the language code alone is never made.
\<close>

theorem groups_have_media:
  assumes "wf_dir t"
  shows "(fst (get_language_info_from_path path_parts) = None)
           = (snd (get_language_info_from_path path_parts) = None)
         \<and> list_all group_ok (fst (get_project_structure t))"
proof
  show "(fst (get_language_info_from_path path_parts) = None)
          = (snd (get_language_info_from_path path_parts) = None)"
    by (simp add: get_language_info_from_path_def)
next
  from os_walk_roots(1) [OF root_ok_dot assms]
  have "\<forall>e \<in> set (os_walk ''.'' t). root_ok (fst e)" .
  then show "list_all group_ok (fst (get_project_structure t))"
    unfolding get_project_structure_def by (intro visit_all_ok) simp_all
qed

theorem groups_have_media_witness:
  "wf_dir story_tree
   \<and> fst (get_project_structure story_tree) = story_structure
   \<and> list_all group_ok story_structure"
proof -
  have h: "wf_dir story_tree" by code_simp
  have s: "fst (get_project_structure story_tree) = story_structure" by code_simp
  from groups_have_media [OF h] s h show ?thesis by simp
qed

end
